theory Spec2Isabelle
  imports Complex_Main
begin

section \<open>Data model of \<open>experiment_app.py\<close>\<close>

text \<open>
  The application is a Streamlit script: every user interaction reruns the handler of the
  current page, which reads and writes \<open>st.session_state\<close>. The session state is modelled
  as a record that each handler takes and returns. Python floats are modelled by the real
  numbers, so every arithmetic expression of the source denotes its exact value.

  The page identifiers are the strings the source assigns to \<open>st.session_state.page\<close>.
\<close>

datatype page =
    Home
  | Phenol_exp1 | Phenol_exp2 | Phenol_exp3 | Phenol_graph
  | Cond_standardize | Cond_titration

text \<open>
  The exceptions the handlers can raise: reading a key of the session state that was never
  assigned (\<open>AttributeError\<close>), float division by zero, and \<open>idxmax\<close> of an empty
  series (\<open>ValueError\<close>).
\<close>

datatype error = AttributeError | ZeroDivisionError | ValueError

text \<open>A row of \<open>phenol_data\<close>, one field per column of the data frame (lines 9-12).\<close>

record phenol_row =
  phenol_ml :: real
  water_ml :: real
  pct_phenol :: real
  disappear_c :: real
  reappear_c :: real
  mean_c :: real

text \<open>A row of \<open>cond_data\<close> (line 14).\<close>

record cond_row =
  naoh_ml :: real
  conductance_ms :: real

text \<open>
  The session state. The first six fields are assigned at initialisation (lines 7-16);
  \<open>phenol_vol\<close>, \<open>disappear\<close>, \<open>reappear\<close> and \<open>total\<close> exist only once a handler
  has assigned them, so they are optional and reading them while absent is an error.
  The key \<open>total\<close> is the field \<open>total_vol\<close>, since \<open>total\<close> names a constant of HOL.
\<close>

record session_state =
  page :: page
  phenol_data :: "phenol_row list"
  water_vol :: real
  cond_data :: "cond_row list"
  naoh_normality :: real
  current_naoh :: real
  phenol_vol :: "real option"
  disappear :: "real option"
  reappear :: "real option"
  total_vol :: "real option"

definition init_state :: session_state where
  "init_state =
     \<lparr>page = Home, phenol_data = [], water_vol = 3.0, cond_data = [],
      naoh_normality = 0.1, current_naoh = 0.0,
      phenol_vol = None, disappear = None, reappear = None, total_vol = None\<rparr>"

section \<open>Conductometric titration\<close>

subsection \<open>The conductance model (lines 225-228)\<close>

definition conductance_low :: "real \<Rightarrow> real" where
  "conductance_low naoh_added = 0.8 - 0.02 * (naoh_added / 0.2)"

definition conductance_high :: "real \<Rightarrow> real" where
  "conductance_high naoh_added = 0.6 + 0.03 * ((naoh_added - 4.0) / 0.2)"

definition conductance :: "real \<Rightarrow> real" where
  "conductance naoh_added =
     (if naoh_added \<le> 4.0 then conductance_low naoh_added
      else conductance_high naoh_added)"

subsection \<open>The handlers \<open>cond_intro\<close>, \<open>cond_standardize\<close> and \<open>cond_titration\<close>\<close>

text \<open>
  Every handler takes the values its widgets return in this run (the number inputs and,
  for each button, whether it was pressed) and the session state. \<open>cond_intro\<close>
  (lines 184-190) cannot raise.
\<close>

definition cond_intro :: "bool \<Rightarrow> session_state \<Rightarrow> session_state" where
  "cond_intro start_pressed s =
     (if start_pressed
      then s\<lparr>cond_data := [], current_naoh := 0.0, page := Cond_standardize\<rparr>
      else s)"

text \<open>
  \<open>cond_standardize\<close> (lines 192-211): the two buttons are tested one after the other.
  The division of line 207 raises \<open>ZeroDivisionError\<close> for a zero divisor, before
  anything is assigned.
\<close>

definition cond_standardize ::
  "real \<Rightarrow> bool \<Rightarrow> bool \<Rightarrow> session_state \<Rightarrow> error + session_state" where
  "cond_standardize naoh_used calculate_pressed proceed_pressed s =
     (let oxalic_normality = 0.05; oxalic_vol = 25.0 in
      if calculate_pressed \<and> naoh_used = 0 then Inl ZeroDivisionError
      else
        let s1 = (if calculate_pressed
                  then s\<lparr>naoh_normality := (oxalic_vol * oxalic_normality) / naoh_used\<rparr>
                  else s)
        in Inr (if proceed_pressed then s1\<lparr>page := Cond_titration\<rparr> else s1))"

text \<open>
  Modelled from the spec: the source text ends inside the \<open>pd.concat\<close> call of line 233,
  so the row that call adds is taken from the specification (``appends
  \<open>{naohAdded, conductance}\<close>''), in the shape of the complete call of lines 122-125.
\<close>

definition append_cond_row :: "cond_row list \<Rightarrow> cond_row \<Rightarrow> cond_row list" where
  "append_cond_row data new_row = data @ [new_row]"

text \<open>
  \<open>cond_titration\<close> (lines 213-233), as far as the source text goes: the membership
  test of line 231 guards the new row.
\<close>

definition cond_titration :: "real \<Rightarrow> bool \<Rightarrow> session_state \<Rightarrow> session_state" where
  "cond_titration naoh_added record_pressed s =
     (if record_pressed
      then (if naoh_added \<notin> set (map naoh_ml (cond_data s))
            then s\<lparr>cond_data :=
                     append_cond_row (cond_data s)
                       \<lparr>naoh_ml = naoh_added, conductance_ms = conductance naoh_added\<rparr>\<rparr>
            else s)
      else s)"

subsection \<open>The display format \<open>{:.4f}\<close> of line 208\<close>

text \<open>
  Python's fixed-point format rounds the value to the given number of decimals, ties to
  the even digit, and prints the integer part, a point and exactly that many digits.
\<close>

definition round_half_even :: "real \<Rightarrow> int" where
  "round_half_even x =
     (let f = \<lfloor>x\<rfloor>; d = x - of_int f in
      if d < 1 / 2 then f else if 1 / 2 < d then f + 1
      else if even f then f else f + 1)"

definition digit_char :: "nat \<Rightarrow> char" where
  "digit_char d = char_of (48 + d)"

fun dec_digits :: "nat \<Rightarrow> nat \<Rightarrow> string" where
  "dec_digits 0 n = []"
| "dec_digits (Suc k) n = dec_digits k (n div 10) @ [digit_char (n mod 10)]"

fun num_digits :: "nat \<Rightarrow> nat \<Rightarrow> nat" where
  "num_digits 0 n = 1"
| "num_digits (Suc fuel) n = (if n < 10 then 1 else Suc (num_digits fuel (n div 10)))"

definition format_f :: "nat \<Rightarrow> real \<Rightarrow> string" where
  "format_f prec x =
     (let n = nat (round_half_even (\<bar>x\<bar> * 10 ^ prec));
          ip = n div 10 ^ prec;
          fp = n mod 10 ^ prec
      in (if x < 0 then ''-'' else []) @ dec_digits (num_digits ip ip) ip
         @ (if prec = 0 then [] else ''.'' @ dec_digits prec fp))"

section \<open>Phenol-water experiment\<close>

subsection \<open>\<open>phenol_intro\<close> and \<open>phenol_exp1\<close>\<close>

definition phenol_intro :: "bool \<Rightarrow> session_state \<Rightarrow> session_state" where
  "phenol_intro start_pressed s =
     (if start_pressed
      then s\<lparr>phenol_data := [], water_vol := 3.0, page := Phenol_exp1\<rparr>
      else s)"

definition phenol_exp1 :: "real \<Rightarrow> real \<Rightarrow> bool \<Rightarrow> session_state \<Rightarrow> session_state" where
  "phenol_exp1 water phenol heat_pressed s =
     (if heat_pressed
      then s\<lparr>phenol_vol := Some phenol, water_vol := water, page := Phenol_exp2\<rparr>
      else s)"

subsection \<open>The temperature model \<open>calculate_temps\<close> (lines 75-86)\<close>

text \<open>The four segment formulas, in the order of the \<open>if\<close>/\<open>elif\<close> chain.\<close>

definition disappear_seg1 :: "real \<Rightarrow> real" where
  "disappear_seg1 percent_phenol = 32 + percent_phenol * 3.5"

definition disappear_seg2 :: "real \<Rightarrow> real" where
  "disappear_seg2 percent_phenol = 65 + (percent_phenol - 10) * 0.25"

definition disappear_seg3 :: "real \<Rightarrow> real" where
  "disappear_seg3 percent_phenol = 70 - (percent_phenol - 30) * 0.1"

definition disappear_seg4 :: "real \<Rightarrow> real" where
  "disappear_seg4 percent_phenol = 66 - (percent_phenol - 70) * 0.3"

definition calculate_temps :: "real \<Rightarrow> real \<times> real" where
  "calculate_temps percent_phenol =
     (let disappear =
        (if percent_phenol < 10 then disappear_seg1 percent_phenol
         else if percent_phenol < 30 then disappear_seg2 percent_phenol
         else if percent_phenol < 70 then disappear_seg3 percent_phenol
         else disappear_seg4 percent_phenol);
          reappear = disappear - (2 + percent_phenol * 0.05)
      in (disappear, reappear))"

subsection \<open>\<open>phenol_exp2\<close> (lines 69-100)\<close>

text \<open>
  Line 72 reads \<open>phenol_vol\<close>, which exists only after \<open>phenol_exp1\<close> stored it; line 73
  divides by \<open>total\<close>. Both can raise, before anything is assigned.
\<close>

definition phenol_exp2 :: "bool \<Rightarrow> session_state \<Rightarrow> error + session_state" where
  "phenol_exp2 record_pressed s =
     (case phenol_vol s of
        None \<Rightarrow> Inl AttributeError
      | Some pv \<Rightarrow>
          let total = pv + water_vol s in
          if total = 0 then Inl ZeroDivisionError
          else
            let percent_phenol = (pv / total) * 100;
                (disappear, reappear) = calculate_temps percent_phenol
            in Inr (if record_pressed
                    then s\<lparr>disappear := Some disappear, reappear := Some reappear,
                           total_vol := Some total, page := Phenol_exp3\<rparr>
                    else s))"

subsection \<open>\<open>phenol_exp3\<close> (lines 102-135)\<close>

text \<open>
  Lines 105-106 and 114-121: the row for the stored volumes and temperatures. The reads
  and the division raise in the order of the source.
\<close>

definition new_row :: "session_state \<Rightarrow> error + phenol_row" where
  "new_row s =
     (case phenol_vol s of
        None \<Rightarrow> Inl AttributeError
      | Some pv \<Rightarrow>
     (case total_vol s of
        None \<Rightarrow> Inl AttributeError
      | Some tot \<Rightarrow>
          if tot = 0 then Inl ZeroDivisionError
          else
     (case disappear s of
        None \<Rightarrow> Inl AttributeError
      | Some d \<Rightarrow>
     (case reappear s of
        None \<Rightarrow> Inl AttributeError
      | Some r \<Rightarrow>
          let percent_phenol = (pv / tot) * 100;
              mean_temp = (d + r) / 2
          in Inr \<lparr>phenol_ml = pv, water_ml = water_vol s, pct_phenol = percent_phenol,
                  disappear_c = d, reappear_c = r, mean_c = mean_temp\<rparr>))))"

text \<open>
  Lines 108-125: \<open>existing\<close> is the \<open>.empty\<close> flag of the selection, so it is true when
  no row has the stored pair of volumes, and only then the row is appended.
\<close>

definition record_data :: "session_state \<Rightarrow> error + session_state" where
  "record_data s =
     (case new_row s of
        Inl e \<Rightarrow> Inl e
      | Inr row \<Rightarrow>
          let existing =
                (filter (\<lambda>r. phenol_ml r = phenol_ml row \<and> water_ml r = water_ml row)
                   (phenol_data s) = [])
          in Inr (if existing then s\<lparr>phenol_data := phenol_data s @ [row]\<rparr> else s))"

text \<open>
  Lines 129-135: one button is shown, which one depends on the water volume; the argument
  says whether the button shown was pressed.
\<close>

definition phenol_exp3 :: "bool \<Rightarrow> session_state \<Rightarrow> error + session_state" where
  "phenol_exp3 button_pressed s =
     (case record_data s of
        Inl e \<Rightarrow> Inl e
      | Inr s1 \<Rightarrow>
          Inr (if water_vol s1 < 36
               then (if button_pressed
                     then s1\<lparr>water_vol := min (water_vol s1 + 2) 36.0, page := Phenol_exp1\<rparr>
                     else s1)
               else (if button_pressed then s1\<lparr>page := Phenol_graph\<rparr> else s1)))"

subsection \<open>\<open>phenol_graph\<close> (lines 137-178)\<close>

text \<open>\<open>drop_duplicates\<close> keeps the first of equal rows and the order of the rest.\<close>

fun drop_duplicates :: "'a list \<Rightarrow> 'a list" where
  "drop_duplicates [] = []"
| "drop_duplicates (x # xs) = x # drop_duplicates (filter (\<lambda>y. y \<noteq> x) xs)"

text \<open>
  \<open>idxmax\<close> scans the series and keeps the first position of the greatest value; on an
  empty series it raises \<open>ValueError\<close>. The row labels of the table are distinct
  (\<open>ignore_index=True\<close> renumbers them at every append), so the label it returns
  designates the row at that position.
\<close>

fun argmax_from :: "nat \<Rightarrow> real \<Rightarrow> nat \<Rightarrow> real list \<Rightarrow> nat" where
  "argmax_from best_i best_v i [] = best_i"
| "argmax_from best_i best_v i (x # xs) =
     (if best_v < x then argmax_from i x (Suc i) xs
      else argmax_from best_i best_v (Suc i) xs)"

definition idxmax :: "real list \<Rightarrow> error + nat" where
  "idxmax xs = (case xs of [] \<Rightarrow> Inl ValueError | x # xs' \<Rightarrow> Inr (argmax_from 0 x 1 xs'))"

definition sorted_table :: "phenol_row list \<Rightarrow> phenol_row list" where
  "sorted_table data = sort_key pct_phenol (drop_duplicates data)"

text \<open>Lines 142 and 150-152: the pair \<open>(cst_temp, cst_conc)\<close>.\<close>

definition cst_point :: "phenol_row list \<Rightarrow> error + (real \<times> real)" where
  "cst_point data =
     (let df = sorted_table data in
      case idxmax (map mean_c df) of
        Inl e \<Rightarrow> Inl e
      | Inr max_temp_idx \<Rightarrow>
          let cst_temp = mean_c (df ! max_temp_idx);
              cst_conc = pct_phenol (df ! max_temp_idx)
          in Inr (cst_temp, cst_conc))"

definition phenol_graph :: "bool \<Rightarrow> session_state \<Rightarrow> error + session_state" where
  "phenol_graph home_pressed s =
     (case cst_point (phenol_data s) of
        Inl e \<Rightarrow> Inl e
      | Inr cst \<Rightarrow> Inr (if home_pressed then s\<lparr>page := Home\<rparr> else s))"

section \<open>Sessions\<close>

text \<open>
  One run of the script executes one handler with the values of its widgets. The router
  that picks the handler from \<open>page\<close> is not part of the source text, so an event names
  the handler that runs; the properties below hold for the handlers run in any order.
\<close>

datatype event =
    PhenolIntro bool
  | PhenolExp1 real real bool
  | PhenolExp2 bool
  | PhenolExp3 bool
  | PhenolGraph bool
  | CondIntro bool
  | CondStandardize real bool bool
  | CondTitration real bool

fun handler :: "event \<Rightarrow> session_state \<Rightarrow> error + session_state" where
  "handler (PhenolIntro b) s = Inr (phenol_intro b s)"
| "handler (PhenolExp1 water phenol b) s = Inr (phenol_exp1 water phenol b s)"
| "handler (PhenolExp2 b) s = phenol_exp2 b s"
| "handler (PhenolExp3 b) s = phenol_exp3 b s"
| "handler (PhenolGraph b) s = phenol_graph b s"
| "handler (CondIntro b) s = Inr (cond_intro b s)"
| "handler (CondStandardize naoh_used calc proceed) s = cond_standardize naoh_used calc proceed s"
| "handler (CondTitration naoh_added b) s = Inr (cond_titration naoh_added b s)"

text \<open>
  Every handler raises before its first assignment, so a run that raises leaves the
  session state as it was.
\<close>

definition exec :: "event \<Rightarrow> session_state \<Rightarrow> session_state" where
  "exec ev s = (case handler ev s of Inl e \<Rightarrow> s | Inr s' \<Rightarrow> s')"

fun run :: "event list \<Rightarrow> session_state \<Rightarrow> session_state" where
  "run [] s = s"
| "run (ev # evs) s = run evs (exec ev s)"

text \<open>The bounds of the number inputs (lines 45-62, 195-202 and 216-223).\<close>

fun input_in_bounds :: "event \<Rightarrow> bool" where
  "input_in_bounds (PhenolExp1 water phenol b) =
     (3.0 \<le> water \<and> water \<le> 36.0 \<and> 5.0 \<le> phenol \<and> phenol \<le> 10.0)"
| "input_in_bounds (CondStandardize naoh_used calc proceed) =
     (0.1 \<le> naoh_used \<and> naoh_used \<le> 50.0)"
| "input_in_bounds (CondTitration naoh_added b) = (0.0 \<le> naoh_added \<and> naoh_added \<le> 8.0)"
| "input_in_bounds _ = True"

text \<open>The events in which ``Calculate NaOH Normality'' (line 204) is pressed.\<close>

fun calculates :: "event \<Rightarrow> bool" where
  "calculates (CondStandardize naoh_used calc proceed) = calc"
| "calculates _ = False"

section \<open>Properties\<close>

subsection \<open>The conductance model at its sample points\<close>

lemmas conductance_defs = conductance_def conductance_low_def conductance_high_def

text \<open>
  C1, as stated, does not hold: at \<open>naohAdded = 4.0\<close> the first branch applies and gives
  \<open>0.8 - 0.02 * 20 = 0.4\<close>, not \<open>0.6\<close>, and the second branch formula gives \<open>0.6\<close> there,
  so the two formulas differ at the boundary.
\<close>

theorem conductance_boundary_counterexample:
  "conductance 4.0 \<noteq> 0.6 \<and> conductance_low 4.0 \<noteq> conductance_high 4.0"
  by (simp add: conductance_defs)

text \<open>
  C1 (amended): the conductance model evaluates to \<open>0.8\<close> at \<open>naohAdded = 0.0\<close>, to
  \<open>0.4\<close> at \<open>naohAdded = 4.0\<close> and to \<open>1.2\<close> at \<open>naohAdded = 8.0\<close>; at the boundary
  \<open>4.0\<close> the first branch formula gives \<open>0.4\<close> and the second gives \<open>0.6\<close>.
\<close>

theorem conductance_values:
  "conductance 0.0 = 0.8 \<and> conductance 4.0 = 0.4 \<and> conductance 8.0 = 1.2
   \<and> conductance_low 4.0 = 0.4 \<and> conductance_high 4.0 = 0.6"
  by (simp add: conductance_defs)

subsection \<open>The disappearance temperature at the segment boundaries\<close>

lemmas disappear_segs =
  disappear_seg1_def disappear_seg2_def disappear_seg3_def disappear_seg4_def

lemma left_limit_of_segment:
  fixes g :: "real \<Rightarrow> real"
  assumes "a < b" and "\<And>p. a < p \<Longrightarrow> p < b \<Longrightarrow> f p = g p" and "isCont g b"
  shows "(f \<longlongrightarrow> g b) (at_left b)"
proof -
  have "(g \<longlongrightarrow> g b) (at_left b)"
    using assms(3) by (simp add: isCont_def filterlim_at_split)
  moreover have "eventually (\<lambda>p. g p = f p) (at_left b)"
    using eventually_at_left_real [OF assms(1)]
    by (rule eventually_mono) (simp add: assms(2))
  ultimately show ?thesis by (rule Lim_transform_eventually)
qed

lemma right_limit_of_segment:
  fixes g :: "real \<Rightarrow> real"
  assumes "b < c" and "\<And>p. b < p \<Longrightarrow> p < c \<Longrightarrow> f p = g p" and "isCont g b"
  shows "(f \<longlongrightarrow> g b) (at_right b)"
proof -
  have "(g \<longlongrightarrow> g b) (at_right b)"
    using assms(3) by (simp add: isCont_def filterlim_at_split)
  moreover have "eventually (\<lambda>p. g p = f p) (at_right b)"
    using eventually_at_right_real [OF assms(1)]
    by (rule eventually_mono) (simp add: assms(2))
  ultimately show ?thesis by (rule Lim_transform_eventually)
qed

lemma isCont_disappear_segs:
  "isCont disappear_seg1 b" "isCont disappear_seg2 b"
  "isCont disappear_seg3 b" "isCont disappear_seg4 b"
  unfolding disappear_segs by (intro continuous_intros)+

lemma disappear_at_boundaries:
  "fst (calculate_temps 10) = 65" "fst (calculate_temps 30) = 70"
  "fst (calculate_temps 70) = 66"
  by (simp_all add: calculate_temps_def disappear_segs)

lemma disappear_left_10: "((\<lambda>p. fst (calculate_temps p)) \<longlongrightarrow> 67) (at_left 10)"
  using left_limit_of_segment [of 0 10 "\<lambda>p. fst (calculate_temps p)" disappear_seg1]
    isCont_disappear_segs(1)
  by (simp add: calculate_temps_def) (simp add: disappear_segs)

lemma disappear_left_30: "((\<lambda>p. fst (calculate_temps p)) \<longlongrightarrow> 70) (at_left 30)"
  using left_limit_of_segment [of 10 30 "\<lambda>p. fst (calculate_temps p)" disappear_seg2]
    isCont_disappear_segs(2)
  by (simp add: calculate_temps_def) (simp add: disappear_segs)

lemma disappear_left_70: "((\<lambda>p. fst (calculate_temps p)) \<longlongrightarrow> 66) (at_left 70)"
  using left_limit_of_segment [of 30 70 "\<lambda>p. fst (calculate_temps p)" disappear_seg3]
    isCont_disappear_segs(3)
  by (simp add: calculate_temps_def) (simp add: disappear_segs)

lemma disappear_right_30: "((\<lambda>p. fst (calculate_temps p)) \<longlongrightarrow> 70) (at_right 30)"
  using right_limit_of_segment [of 30 70 "\<lambda>p. fst (calculate_temps p)" disappear_seg3]
    isCont_disappear_segs(3)
  by (simp add: calculate_temps_def) (simp add: disappear_segs)

lemma disappear_right_70: "((\<lambda>p. fst (calculate_temps p)) \<longlongrightarrow> 66) (at_right 70)"
  using right_limit_of_segment [of 70 100 "\<lambda>p. fst (calculate_temps p)" disappear_seg4]
    isCont_disappear_segs(4)
  by (simp add: calculate_temps_def) (simp add: disappear_segs)

lemma disappear_not_continuous_10: "\<not> isCont (\<lambda>p. fst (calculate_temps p)) 10"
proof
  assume "isCont (\<lambda>p. fst (calculate_temps p)) 10"
  then have "((\<lambda>p. fst (calculate_temps p)) \<longlongrightarrow> 65) (at_left 10)"
    by (simp add: isCont_def filterlim_at_split disappear_at_boundaries)
  then have "(67::real) = 65"
    by (intro tendsto_unique [OF _ disappear_left_10]) simp_all
  then show False by simp
qed

text \<open>
  C2, as stated, does not hold at the boundary \<open>10\<close>: the formula of the segment below
  it, \<open>32 + 3.5 * percentPhenol\<close>, takes the value \<open>67\<close> there, and the model's value at
  \<open>10\<close> is \<open>65\<close>.
\<close>

theorem disappear_boundary_10_counterexample:
  "disappear_seg1 10 \<noteq> fst (calculate_temps 10)"
  by (simp add: calculate_temps_def disappear_segs)

text \<open>
  C2 (amended): the disappearance temperature model is continuous at the segment boundaries
  \<open>30\<close> and \<open>70\<close>, where the formula of the segment below takes the model's value at
  the boundary (\<open>70\<close> and \<open>66\<close>); at the boundary \<open>10\<close> it is not continuous: the
  values just below tend to \<open>67\<close> and the value at \<open>10\<close> is \<open>65\<close>.
\<close>

theorem disappear_continuity:
  "isCont (\<lambda>p. fst (calculate_temps p)) 30
   \<and> disappear_seg2 30 = fst (calculate_temps 30)
   \<and> isCont (\<lambda>p. fst (calculate_temps p)) 70
   \<and> disappear_seg3 70 = fst (calculate_temps 70)
   \<and> ((\<lambda>p. fst (calculate_temps p)) \<longlongrightarrow> 67) (at_left 10)
   \<and> fst (calculate_temps 10) = 65
   \<and> \<not> isCont (\<lambda>p. fst (calculate_temps p)) 10"
proof -
  have "isCont (\<lambda>p. fst (calculate_temps p)) 30"
    using disappear_left_30 disappear_right_30
    by (simp add: isCont_def filterlim_at_split disappear_at_boundaries)
  moreover have "isCont (\<lambda>p. fst (calculate_temps p)) 70"
    using disappear_left_70 disappear_right_70
    by (simp add: isCont_def filterlim_at_split disappear_at_boundaries)
  moreover have "disappear_seg2 30 = fst (calculate_temps 30)"
    and "disappear_seg3 70 = fst (calculate_temps 70)"
    by (simp_all add: calculate_temps_def disappear_segs)
  ultimately show ?thesis
    using disappear_left_10 disappear_not_continuous_10 disappear_at_boundaries(1)
    by blast
qed

subsection \<open>Reappearance below disappearance\<close>

text \<open>
  C4: for every \<open>percentPhenol\<close> in \<open>[0, 100]\<close>, the reappearance temperature computed by
  the model is strictly less than the disappearance temperature.
\<close>

theorem reappear_below_disappear:
  "0 \<le> p \<Longrightarrow> p \<le> 100 \<Longrightarrow> snd (calculate_temps p) < fst (calculate_temps p)"
  by (simp add: calculate_temps_def Let_def)

theorem reappear_below_disappear_witness:
  "(0::real) \<le> 62.5 \<and> (62.5::real) \<le> 100
   \<and> snd (calculate_temps 62.5) < fst (calculate_temps 62.5)"
  using reappear_below_disappear [of "62.5"] by simp

subsection \<open>The sample trial: 5.0 ml phenol in 3.0 ml water\<close>

text \<open>
  C5: with \<open>phenol = 5.0\<close> and \<open>water = 3.0\<close> stored, the observe step computes
  \<open>total = 8.0\<close>, a disappearance temperature of \<open>66.75\<close> and a reappearance temperature
  of \<open>61.625\<close> (the model at \<open>percentPhenol = 62.5\<close>), and the record step computes
  \<open>percentPhenol = 62.5\<close> and \<open>meanTemp = 64.1875\<close> for the row.
\<close>

theorem phenol_5_water_3:
  assumes "phenol_vol s = Some 5.0" and "water_vol s = 3.0"
  shows "calculate_temps 62.5 = (66.75, 61.625)
   \<and> phenol_exp2 True s =
       Inr (s\<lparr>disappear := Some 66.75, reappear := Some 61.625, total_vol := Some 8.0,
              page := Phenol_exp3\<rparr>)
   \<and> new_row (s\<lparr>disappear := Some 66.75, reappear := Some 61.625, total_vol := Some 8.0,
              page := Phenol_exp3\<rparr>) =
       Inr \<lparr>phenol_ml = 5.0, water_ml = 3.0, pct_phenol = 62.5,
            disappear_c = 66.75, reappear_c = 61.625, mean_c = 64.1875\<rparr>"
proof -
  have ct: "calculate_temps 62.5 = (66.75, 61.625)"
    by (simp add: calculate_temps_def disappear_segs)
  have "phenol_exp2 True s =
       Inr (s\<lparr>disappear := Some 66.75, reappear := Some 61.625, total_vol := Some 8.0,
              page := Phenol_exp3\<rparr>)"
    unfolding phenol_exp2_def using assms ct by (simp add: Let_def)
  moreover have "new_row (s\<lparr>disappear := Some 66.75, reappear := Some 61.625, total_vol := Some 8.0,
              page := Phenol_exp3\<rparr>) =
       Inr \<lparr>phenol_ml = 5.0, water_ml = 3.0, pct_phenol = 62.5,
            disappear_c = 66.75, reappear_c = 61.625, mean_c = 64.1875\<rparr>"
    unfolding new_row_def using assms by (simp add: Let_def)
  ultimately show ?thesis using ct by simp
qed

theorem phenol_5_water_3_witness:
  "phenol_vol (phenol_exp1 3.0 5.0 True init_state) = Some 5.0
   \<and> water_vol (phenol_exp1 3.0 5.0 True init_state) = 3.0
   \<and> phenol_data
        (run [PhenolExp1 3.0 5.0 True, PhenolExp2 True, PhenolExp3 False] init_state) =
       [\<lparr>phenol_ml = 5.0, water_ml = 3.0, pct_phenol = 62.5,
          disappear_c = 66.75, reappear_c = 61.625, mean_c = 64.1875\<rparr>]"
  using phenol_5_water_3 [of "phenol_exp1 3.0 5.0 True init_state"]
  by (simp add: exec_def phenol_exp1_def init_state_def phenol_exp3_def record_data_def)

subsection \<open>Standardisation\<close>

text \<open>
  C8: for every \<open>naohUsed\<close> in \<open>[0.1, 50.0]\<close>, ``Calculate'' stores
  \<open>naohNormality = (25.0 * 0.05) / naohUsed\<close>; for \<open>naohUsed = 18.5\<close> the value is
  \<open>0.067568\<close> to six decimals and is displayed as \<open>0.0676\<close> by the format with four
  decimals.
\<close>

theorem standardize_normality:
  assumes "0.1 \<le> naoh_used" and "naoh_used \<le> 50.0"
  shows "\<exists>s'. cond_standardize naoh_used True proceed s = Inr s'
     \<and> naoh_normality s' = (25.0 * 0.05) / naoh_used
     \<and> (naoh_used = 18.5 \<longrightarrow>
          \<bar>naoh_normality s' - 0.067568\<bar> < 0.0000005
          \<and> format_f 4 (naoh_normality s') = ''0.0676'')"
proof -
  define v where "v = (25.0 * 0.05) / naoh_used"
  define s' where "s' = (if proceed then s\<lparr>naoh_normality := v, page := Cond_titration\<rparr>
                         else s\<lparr>naoh_normality := v\<rparr>)"
  from assms have "naoh_used \<noteq> 0" by auto
  then have res: "cond_standardize naoh_used True proceed s = Inr s'"
    by (simp add: cond_standardize_def Let_def s'_def v_def)
  have nn: "naoh_normality s' = v"
    by (simp add: s'_def)
  have sample: "\<bar>v - 0.067568\<bar> < 0.0000005 \<and> format_f 4 v = ''0.0676''"
    if "naoh_used = 18.5"
  proof -
    have v: "v = 5 / 74" unfolding v_def that by simp
    have "format_f 4 (5 / 74) = ''0.0676''" by code_simp
    moreover have "\<bar>(5 / 74 :: real) - 0.067568\<bar> < 0.0000005" by simp
    ultimately show ?thesis by (simp only: v) 
  qed
  show ?thesis
  proof (intro exI conjI impI)
    show "cond_standardize naoh_used True proceed s = Inr s'" by (rule res)
    show "naoh_normality s' = (25.0 * 0.05) / naoh_used" by (simp only: nn v_def)
    show "\<bar>naoh_normality s' - 0.067568\<bar> < 0.0000005" if "naoh_used = 18.5"
      using sample [OF that] by (simp only: nn)
    show "format_f 4 (naoh_normality s') = ''0.0676''" if "naoh_used = 18.5"
      using sample [OF that] by (simp only: nn)
  qed
qed

theorem standardize_normality_witness:
  "(0.1::real) \<le> 18.5 \<and> (18.5::real) \<le> 50.0
   \<and> (\<exists>s'. cond_standardize 18.5 True False init_state = Inr s'
     \<and> naoh_normality s' = (25.0 * 0.05) / 18.5
     \<and> format_f 4 (naoh_normality s') = ''0.0676'')"
proof -
  have h1: "(0.1::real) \<le> 18.5" and h2: "(18.5::real) \<le> 50.0" by simp_all
  from standardize_normality [OF h1 h2, of False init_state]
  obtain s' where "cond_standardize 18.5 True False init_state = Inr s'"
    and "naoh_normality s' = (25.0 * 0.05) / 18.5"
    and "format_f 4 (naoh_normality s') = ''0.0676''"
    by (elim exE conjE) (simp only: simp_thms)
  with h1 h2 show ?thesis by (intro conjI exI)
qed

subsection \<open>The water volume stays within the cap\<close>

lemma record_data_water: "record_data s = Inr s1 \<Longrightarrow> water_vol s1 = water_vol s"
  by (auto simp add: record_data_def Let_def split: sum.splits if_splits)

lemma exec_water_le:
  assumes "water_vol s \<le> 36" and "input_in_bounds ev"
  shows "water_vol (exec ev s) \<le> 36"
proof (cases ev)
  case (PhenolIntro b)
  then show ?thesis using assms by (simp add: exec_def phenol_intro_def)
next
  case (PhenolExp1 water phenol b)
  then show ?thesis using assms by (simp add: exec_def phenol_exp1_def)
next
  case (PhenolExp2 b)
  then show ?thesis using assms
    by (auto simp add: exec_def phenol_exp2_def Let_def split: option.splits prod.splits)
next
  case (PhenolExp3 b)
  show ?thesis
  proof (cases "record_data s")
    case (Inl e)
    then show ?thesis using assms PhenolExp3 by (simp add: exec_def phenol_exp3_def)
  next
    case (Inr s1)
    then show ?thesis using assms PhenolExp3 record_data_water [OF Inr]
      by (simp add: exec_def phenol_exp3_def)
  qed
next
  case (PhenolGraph b)
  then show ?thesis using assms
    by (simp add: exec_def phenol_graph_def split: sum.splits)
next
  case (CondIntro b)
  then show ?thesis using assms by (simp add: exec_def cond_intro_def)
next
  case (CondStandardize naoh_used calc proceed)
  then show ?thesis using assms by (simp add: exec_def cond_standardize_def Let_def)
next
  case (CondTitration naoh_added b)
  then show ?thesis using assms by (simp add: exec_def cond_titration_def)
qed

lemma run_water_le:
  "water_vol s \<le> 36 \<Longrightarrow> list_all input_in_bounds evs \<Longrightarrow> water_vol (run evs s) \<le> 36"
  by (induction evs arbitrary: s) (simp_all add: exec_water_le)

lemma run_replicate: "run (replicate n ev) s = (exec ev ^^ n) s"
  by (induction n arbitrary: s) (simp_all add: funpow_swap1)

text \<open>
  C9: when the water volume is below \<open>36\<close>, pressing ``Add More Water'' in
  \<open>phenol_exp3\<close> sets it to the minimum of the volume plus \<open>2.0\<close> and \<open>36.0\<close>; from
  every starting volume in \<open>[3.0, 36.0]\<close> the volume is at most \<open>36.0\<close> after any
  number of runs of \<open>phenol_exp3\<close> with its button pressed, and after any sequence of
  runs of the handlers whose number inputs are within their bounds.
\<close>

theorem add_more_water_capped:
  "(water_vol s < 36 \<longrightarrow> record_data s = Inr s1 \<longrightarrow>
      phenol_exp3 True s =
        Inr (s1\<lparr>water_vol := min (water_vol s + 2) 36.0, page := Phenol_exp1\<rparr>))
   \<and> (3.0 \<le> water_vol s \<and> water_vol s \<le> 36.0 \<longrightarrow>
        water_vol ((exec (PhenolExp3 True) ^^ n) s) \<le> 36.0
        \<and> (list_all input_in_bounds evs \<longrightarrow> water_vol (run evs s) \<le> 36.0))"
proof (intro conjI impI)
  assume "water_vol s < 36" and r: "record_data s = Inr s1"
  then show "phenol_exp3 True s =
        Inr (s1\<lparr>water_vol := min (water_vol s + 2) 36.0, page := Phenol_exp1\<rparr>)"
    using record_data_water [OF r] by (simp add: phenol_exp3_def)
next
  assume b: "3.0 \<le> water_vol s \<and> water_vol s \<le> 36.0"
  have "list_all input_in_bounds (replicate n (PhenolExp3 True))"
    by (simp add: list_all_iff)
  with b have "water_vol (run (replicate n (PhenolExp3 True)) s) \<le> 36"
    using run_water_le [of s "replicate n (PhenolExp3 True)"] by simp
  then show "water_vol ((exec (PhenolExp3 True) ^^ n) s) \<le> 36.0"
    by (simp add: run_replicate)
next
  assume "3.0 \<le> water_vol s \<and> water_vol s \<le> 36.0" and "list_all input_in_bounds evs"
  then show "water_vol (run evs s) \<le> 36.0"
    using run_water_le [of s evs] by simp
qed

theorem add_more_water_capped_witness:
  "water_vol (run [PhenolExp1 35.0 5.0 True, PhenolExp2 True] init_state) = 35.0
   \<and> water_vol (run [PhenolExp1 35.0 5.0 True, PhenolExp2 True, PhenolExp3 True] init_state)
       = 36.0
   \<and> water_vol ((exec (PhenolExp3 True) ^^ 3)
         (run [PhenolExp1 35.0 5.0 True, PhenolExp2 True] init_state)) \<le> 36.0"
proof -
  define s where "s = run [PhenolExp1 35.0 5.0 True, PhenolExp2 True] init_state"
  define s1 where "s1 = s\<lparr>phenol_data :=
     [\<lparr>phenol_ml = 5.0, water_ml = 35.0, pct_phenol = 12.5,
       disappear_c = 65.625, reappear_c = 63, mean_c = 64.3125\<rparr>]\<rparr>"
  have w: "water_vol s = 35.0"
    by (simp add: s_def exec_def phenol_exp1_def phenol_exp2_def init_state_def Let_def
        split: prod.splits)
  have r: "record_data s = Inr s1"
    by (simp add: s_def s1_def exec_def phenol_exp1_def phenol_exp2_def init_state_def
        Let_def record_data_def new_row_def calculate_temps_def disappear_segs)
  have "water_vol (exec (PhenolExp3 True) s) = 36.0"
    using add_more_water_capped [of s s1 3 "[]"] w r
    by (simp add: exec_def s1_def)
  moreover have "water_vol ((exec (PhenolExp3 True) ^^ 3) s) \<le> 36.0"
    using add_more_water_capped [of s s1 3 "[]"] w by simp
  ultimately show ?thesis using w unfolding s_def by simp
qed

subsection \<open>The normality without standardisation\<close>

lemma record_data_normality:
  "record_data s = Inr s1 \<Longrightarrow> naoh_normality s1 = naoh_normality s"
  by (auto simp add: record_data_def Let_def split: sum.splits if_splits)

lemma exec_normality:
  assumes "\<not> calculates ev"
  shows "naoh_normality (exec ev s) = naoh_normality s"
proof (cases ev)
  case (PhenolIntro b)
  then show ?thesis by (simp add: exec_def phenol_intro_def)
next
  case (PhenolExp1 water phenol b)
  then show ?thesis by (simp add: exec_def phenol_exp1_def)
next
  case (PhenolExp2 b)
  then show ?thesis
    by (auto simp add: exec_def phenol_exp2_def Let_def split: option.splits prod.splits)
next
  case (PhenolExp3 b)
  show ?thesis
  proof (cases "record_data s")
    case (Inl e)
    then show ?thesis using PhenolExp3 by (simp add: exec_def phenol_exp3_def)
  next
    case (Inr s1)
    then show ?thesis using PhenolExp3 record_data_normality [OF Inr]
      by (simp add: exec_def phenol_exp3_def)
  qed
next
  case (PhenolGraph b)
  then show ?thesis by (simp add: exec_def phenol_graph_def split: sum.splits)
next
  case (CondIntro b)
  then show ?thesis by (simp add: exec_def cond_intro_def)
next
  case (CondStandardize naoh_used calc proceed)
  then show ?thesis using assms by (simp add: exec_def cond_standardize_def)
next
  case (CondTitration naoh_added b)
  then show ?thesis by (simp add: exec_def cond_titration_def)
qed

lemma run_normality:
  "\<forall>ev \<in> set evs. \<not> calculates ev \<Longrightarrow> naoh_normality (run evs s) = naoh_normality s"
  by (induction evs arbitrary: s) (simp_all add: exec_normality)

text \<open>
  C10: the initial session state has \<open>naohNormality = 0.1\<close>; ``Proceed to Titration''
  alone changes the page and no other field; hence after any sequence of handler runs from
  the initial state in which ``Calculate NaOH Normality'' is never pressed, \<open>naohNormality\<close>
  is still \<open>0.1\<close>.
\<close>

theorem normality_default_kept:
  "naoh_normality init_state = 0.1
   \<and> cond_standardize naoh_used False True s = Inr (s\<lparr>page := Cond_titration\<rparr>)
   \<and> ((\<forall>ev \<in> set evs. \<not> calculates ev) \<longrightarrow>
        naoh_normality (run evs init_state) = 0.1)"
proof (intro conjI impI)
  show "naoh_normality init_state = 0.1" by (simp add: init_state_def)
  show "cond_standardize naoh_used False True s = Inr (s\<lparr>page := Cond_titration\<rparr>)"
    by (simp add: cond_standardize_def)
  assume "\<forall>ev \<in> set evs. \<not> calculates ev"
  then show "naoh_normality (run evs init_state) = 0.1"
    by (simp add: run_normality init_state_def)
qed

theorem normality_default_kept_witness:
  "\<not> calculates (CondIntro True) \<and> \<not> calculates (CondStandardize 18.5 False True)
   \<and> page (run [CondIntro True, CondStandardize 18.5 False True] init_state) = Cond_titration
   \<and> naoh_normality (run [CondIntro True, CondStandardize 18.5 False True] init_state) = 0.1"
proof -
  have h: "\<forall>ev \<in> set [CondIntro True, CondStandardize 18.5 False True]. \<not> calculates ev"
    by simp
  have "page (run [CondIntro True, CondStandardize 18.5 False True] init_state) = Cond_titration"
    by (simp add: exec_def cond_intro_def cond_standardize_def)
  with h show ?thesis
    using normality_default_kept
      [of "18.5" init_state "[CondIntro True, CondStandardize 18.5 False True]"]
    by simp
qed

subsection \<open>One row per NaOH volume\<close>

lemma record_data_cond: "record_data s = Inr s1 \<Longrightarrow> cond_data s1 = cond_data s"
  by (auto simp add: record_data_def Let_def split: sum.splits if_splits)

lemma exec_cond_distinct:
  assumes "distinct (map naoh_ml (cond_data s))"
  shows "distinct (map naoh_ml (cond_data (exec ev s)))"
proof (cases ev)
  case (PhenolIntro b)
  then show ?thesis using assms by (simp add: exec_def phenol_intro_def)
next
  case (PhenolExp1 water phenol b)
  then show ?thesis using assms by (simp add: exec_def phenol_exp1_def)
next
  case (PhenolExp2 b)
  then show ?thesis using assms
    by (auto simp add: exec_def phenol_exp2_def Let_def split: option.splits prod.splits)
next
  case (PhenolExp3 b)
  show ?thesis
  proof (cases "record_data s")
    case (Inl e)
    then show ?thesis using assms PhenolExp3 by (simp add: exec_def phenol_exp3_def)
  next
    case (Inr s1)
    then show ?thesis using assms PhenolExp3 record_data_cond [OF Inr]
      by (simp add: exec_def phenol_exp3_def)
  qed
next
  case (PhenolGraph b)
  then show ?thesis using assms by (simp add: exec_def phenol_graph_def split: sum.splits)
next
  case (CondIntro b)
  then show ?thesis using assms by (simp add: exec_def cond_intro_def)
next
  case (CondStandardize naoh_used calc proceed)
  then show ?thesis using assms by (simp add: exec_def cond_standardize_def Let_def)
next
  case (CondTitration naoh_added b)
  then show ?thesis using assms
    by (simp add: exec_def cond_titration_def append_cond_row_def)
qed

lemma run_cond_distinct:
  "distinct (map naoh_ml (cond_data s)) \<Longrightarrow> distinct (map naoh_ml (cond_data (run evs s)))"
  by (induction evs arbitrary: s) (simp_all add: exec_cond_distinct)

text \<open>
  C7: ``Record Measurement'' appends the row \<open>{naohAdded, conductance}\<close> exactly when
  \<open>naohAdded\<close> is not yet a key of the conductance table; with a key already present the
  handler returns the session state unchanged and raises nothing; and in every session
  from the initial state the keys of the conductance table are pairwise distinct.
\<close>

theorem conductance_table_one_row_per_volume:
  "cond_titration naoh_added True s =
     (if naoh_added \<in> set (map naoh_ml (cond_data s)) then s
      else s\<lparr>cond_data := cond_data s @
             [\<lparr>naoh_ml = naoh_added, conductance_ms = conductance naoh_added\<rparr>]\<rparr>)
   \<and> handler (CondTitration naoh_added True) s = Inr (cond_titration naoh_added True s)
   \<and> distinct (map naoh_ml (cond_data (run evs init_state)))"
proof (intro conjI)
  show "distinct (map naoh_ml (cond_data (run evs init_state)))"
    by (rule run_cond_distinct) (simp add: init_state_def)
qed (simp_all add: cond_titration_def append_cond_row_def)

theorem conductance_table_one_row_per_volume_witness:
  "cond_data (run [CondIntro True, CondTitration 0.2 True, CondTitration 0.2 True] init_state)
     = [\<lparr>naoh_ml = 0.2, conductance_ms = 0.78\<rparr>]"
  using conductance_table_one_row_per_volume
    [of "0.2" "run [CondIntro True, CondTitration 0.2 True] init_state" "[]"]
  by (simp add: exec_def cond_intro_def init_state_def cond_titration_def append_cond_row_def
      conductance_defs)

subsection \<open>One row per pair of volumes\<close>

lemma filter_key_empty_iff:
  "(filter (\<lambda>r. f r = k) xs = []) = (k \<notin> f ` set xs)"
  by (auto simp add: filter_empty_conv)

lemma length_filter_key_distinct:
  "distinct (map f xs) \<Longrightarrow> k \<in> f ` set xs \<Longrightarrow> length (filter (\<lambda>r. f r = k) xs) = 1"
proof (induction xs)
  case Nil
  then show ?case by simp
next
  case (Cons x xs)
  show ?case
  proof (cases "f x = k")
    case True
    with Cons.prems have "k \<notin> f ` set xs" by auto
    then have "filter (\<lambda>r. f r = k) xs = []" by (simp add: filter_key_empty_iff)
    with True show ?thesis by simp
  next
    case False
    with Cons show ?thesis by auto
  qed
qed

lemma volumes_eq:
  "(phenol_ml r = a \<and> water_ml r = b) = ((phenol_ml r, water_ml r) = (a, b))"
  by simp

lemma record_data_cases:
  assumes "record_data s = Inr s1"
  obtains row where "new_row s = Inr row"
    and "phenol_vol s = Some (phenol_ml row)" and "water_ml row = water_vol s"
    and "s1 = (if (phenol_ml row, water_ml row)
                    \<notin> (\<lambda>r. (phenol_ml r, water_ml r)) ` set (phenol_data s)
               then s\<lparr>phenol_data := phenol_data s @ [row]\<rparr> else s)"
proof -
  from assms obtain row where row: "new_row s = Inr row"
    by (auto simp add: record_data_def split: sum.splits)
  then have "phenol_vol s = Some (phenol_ml row)" and "water_ml row = water_vol s"
    by (auto simp add: new_row_def Let_def split: option.splits if_splits)
  moreover from assms row
  have "s1 = (if (phenol_ml row, water_ml row)
                    \<notin> (\<lambda>r. (phenol_ml r, water_ml r)) ` set (phenol_data s)
               then s\<lparr>phenol_data := phenol_data s @ [row]\<rparr> else s)"
    unfolding record_data_def volumes_eq filter_key_empty_iff by (simp add: Let_def)
  ultimately show thesis using row that by blast
qed

lemma new_row_phenol_data: "new_row (s\<lparr>phenol_data := d\<rparr>) = new_row s"
  by (simp add: new_row_def split: option.splits)

lemma record_data_new_row:
  assumes "record_data s = Inr s1"
  shows "new_row s1 = new_row s"
  using assms
proof (cases rule: record_data_cases)
  case (1 row)
  then show ?thesis by (cases "(phenol_ml row, water_ml row)
                    \<notin> (\<lambda>r. (phenol_ml r, water_ml r)) ` set (phenol_data s)")
      (simp_all add: new_row_phenol_data)
qed

lemma record_data_distinct:
  assumes "distinct (map (\<lambda>r. (phenol_ml r, water_ml r)) (phenol_data s))"
    and "record_data s = Inr s1"
  shows "distinct (map (\<lambda>r. (phenol_ml r, water_ml r)) (phenol_data s1))"
  using assms(2)
proof (cases rule: record_data_cases)
  case (1 row)
  then show ?thesis using assms(1) by (auto split: if_splits)
qed

lemma exec_phenol_distinct:
  assumes "distinct (map (\<lambda>r. (phenol_ml r, water_ml r)) (phenol_data s))"
  shows "distinct (map (\<lambda>r. (phenol_ml r, water_ml r)) (phenol_data (exec ev s)))"
proof (cases ev)
  case (PhenolIntro b)
  then show ?thesis using assms by (simp add: exec_def phenol_intro_def)
next
  case (PhenolExp1 water phenol b)
  then show ?thesis using assms by (simp add: exec_def phenol_exp1_def)
next
  case (PhenolExp2 b)
  then show ?thesis using assms
    by (auto simp add: exec_def phenol_exp2_def Let_def split: option.splits prod.splits)
next
  case (PhenolExp3 b)
  show ?thesis
  proof (cases "record_data s")
    case (Inl e)
    then show ?thesis using assms PhenolExp3 by (simp add: exec_def phenol_exp3_def)
  next
    case (Inr s1)
    then show ?thesis using PhenolExp3 record_data_distinct [OF assms Inr]
      by (simp add: exec_def phenol_exp3_def)
  qed
next
  case (PhenolGraph b)
  then show ?thesis using assms by (simp add: exec_def phenol_graph_def split: sum.splits)
next
  case (CondIntro b)
  then show ?thesis using assms by (simp add: exec_def cond_intro_def)
next
  case (CondStandardize naoh_used calc proceed)
  then show ?thesis using assms by (simp add: exec_def cond_standardize_def Let_def)
next
  case (CondTitration naoh_added b)
  then show ?thesis using assms by (simp add: exec_def cond_titration_def)
qed

lemma run_phenol_distinct:
  "distinct (map (\<lambda>r. (phenol_ml r, water_ml r)) (phenol_data s)) \<Longrightarrow>
   distinct (map (\<lambda>r. (phenol_ml r, water_ml r)) (phenol_data (run evs s)))"
  by (induction evs arbitrary: s) (simp_all add: exec_phenol_distinct)

lemma record_data_present:
  assumes "record_data s = Inr s1"
  shows "\<exists>pv. phenol_vol s1 = Some pv
     \<and> (pv, water_vol s1) \<in> (\<lambda>r. (phenol_ml r, water_ml r)) ` set (phenol_data s1)"
  using assms
proof (cases rule: record_data_cases)
  case (1 row)
  show ?thesis
  proof (cases "(phenol_ml row, water_ml row)
                    \<notin> (\<lambda>r. (phenol_ml r, water_ml r)) ` set (phenol_data s)")
    case True
    with 1 have "s1 = s\<lparr>phenol_data := phenol_data s @ [row]\<rparr>" by simp
    with 1 show ?thesis by (simp add: image_iff)
  next
    case False
    with 1 have "s1 = s" by simp
    with 1 False show ?thesis by simp
  qed
qed

lemma record_data_again:
  assumes "record_data s1 = Inr s1'" 
    and "phenol_vol s1 = Some pv"
    and "(pv, water_vol s1) \<in> (\<lambda>r. (phenol_ml r, water_ml r)) ` set (phenol_data s1)"
  shows "s1' = s1"
  using assms(1)
proof (cases rule: record_data_cases)
  case (1 row)
  then show ?thesis using assms(2,3) by simp
qed

text \<open>
  C6: in every session from the initial state the phenol table has at most one row per
  pair \<open>(phenolMl, waterMl)\<close>; when the record step succeeds, running it again with the
  same stored volumes and table appends nothing, raises nothing, and the table then has
  exactly one row for the stored pair.
\<close>

theorem phenol_table_one_row_per_pair:
  "distinct (map (\<lambda>r. (phenol_ml r, water_ml r)) (phenol_data (run evs init_state)))
   \<and> (record_data (run evs init_state) = Inr s1 \<longrightarrow>
        record_data s1 = Inr s1
        \<and> (\<exists>pv. phenol_vol s1 = Some pv
              \<and> length (filter (\<lambda>r. phenol_ml r = pv \<and> water_ml r = water_vol s1)
                          (phenol_data s1)) = 1)
        \<and> (phenol_vol s2 = phenol_vol s1 \<and> water_vol s2 = water_vol s1
             \<and> phenol_data s2 = phenol_data s1 \<and> record_data s2 = Inr s3 \<longrightarrow>
             phenol_data s3 = phenol_data s1))"
proof (intro conjI impI)
  show inv: "distinct (map (\<lambda>r. (phenol_ml r, water_ml r)) (phenol_data (run evs init_state)))"
    by (rule run_phenol_distinct) (simp add: init_state_def)
  assume r: "record_data (run evs init_state) = Inr s1"
  from record_data_present [OF r] obtain pv where pv: "phenol_vol s1 = Some pv"
    and mem: "(pv, water_vol s1) \<in> (\<lambda>r. (phenol_ml r, water_ml r)) ` set (phenol_data s1)"
    by blast
  have inv1: "distinct (map (\<lambda>r. (phenol_ml r, water_ml r)) (phenol_data s1))"
    by (rule record_data_distinct [OF inv r])
  from r obtain row where "new_row (run evs init_state) = Inr row"
    by (cases rule: record_data_cases)
  moreover have "new_row s1 = new_row (run evs init_state)"
    by (rule record_data_new_row [OF r])
  ultimately obtain s1' where r1: "record_data s1 = Inr s1'"
    by (simp add: record_data_def Let_def)
  with record_data_again [OF r1 pv mem] show "record_data s1 = Inr s1" by simp
  have "length (filter (\<lambda>r. (phenol_ml r, water_ml r) = (pv, water_vol s1)) (phenol_data s1)) = 1"
    by (rule length_filter_key_distinct [OF inv1 mem])
  then have "length (filter (\<lambda>r. phenol_ml r = pv \<and> water_ml r = water_vol s1)
                          (phenol_data s1)) = 1"
    by simp
  with pv show "\<exists>pv. phenol_vol s1 = Some pv
              \<and> length (filter (\<lambda>r. phenol_ml r = pv \<and> water_ml r = water_vol s1)
                          (phenol_data s1)) = 1"
    by blast
  assume s2: "phenol_vol s2 = phenol_vol s1 \<and> water_vol s2 = water_vol s1
             \<and> phenol_data s2 = phenol_data s1 \<and> record_data s2 = Inr s3"
  then have "record_data s2 = Inr s3" by simp
  moreover from s2 pv mem have "phenol_vol s2 = Some pv"
    and "(pv, water_vol s2) \<in> (\<lambda>r. (phenol_ml r, water_ml r)) ` set (phenol_data s2)"
    by simp_all
  ultimately have "s3 = s2" by (rule record_data_again)
  with s2 show "phenol_data s3 = phenol_data s1" by simp
qed

theorem phenol_table_one_row_per_pair_witness:
  "(\<exists>s1. record_data (run [PhenolExp1 3.0 5.0 True, PhenolExp2 True] init_state) = Inr s1
      \<and> record_data s1 = Inr s1
      \<and> phenol_data s1 =
          [\<lparr>phenol_ml = 5.0, water_ml = 3.0, pct_phenol = 62.5,
             disappear_c = 66.75, reappear_c = 61.625, mean_c = 64.1875\<rparr>])"
proof -
  define s where "s = run [PhenolExp1 3.0 5.0 True, PhenolExp2 True] init_state"
  define s1 where "s1 = s\<lparr>phenol_data :=
     [\<lparr>phenol_ml = 5.0, water_ml = 3.0, pct_phenol = 62.5,
       disappear_c = 66.75, reappear_c = 61.625, mean_c = 64.1875\<rparr>]\<rparr>"
  have r: "record_data s = Inr s1"
    by (simp add: s_def s1_def exec_def phenol_exp1_def phenol_exp2_def init_state_def
        Let_def record_data_def new_row_def calculate_temps_def disappear_segs)
  have "record_data s1 = Inr s1"
    using phenol_table_one_row_per_pair
      [of "[PhenolExp1 3.0 5.0 True, PhenolExp2 True]" s1 s1 s1] r
    by (simp only: s_def) 
  moreover have "phenol_data s1 =
          [\<lparr>phenol_ml = 5.0, water_ml = 3.0, pct_phenol = 62.5,
             disappear_c = 66.75, reappear_c = 61.625, mean_c = 64.1875\<rparr>]"
    by (simp add: s1_def)
  ultimately show ?thesis using r unfolding s_def by blast
qed

subsection \<open>Extraction of the critical solution temperature\<close>

lemma set_drop_duplicates: "set (drop_duplicates xs) = set xs"
  by (induction xs rule: drop_duplicates.induct) auto

lemma distinct_drop_duplicates: "distinct (drop_duplicates xs)"
  by (induction xs rule: drop_duplicates.induct) (auto simp add: set_drop_duplicates)

lemma sorted_table_props:
  "sorted (map pct_phenol (sorted_table data))"
  "distinct (sorted_table data)"
  "set (sorted_table data) = set data"
  by (simp_all add: sorted_table_def sorted_sort_key distinct_drop_duplicates
      set_drop_duplicates)

lemma argmax_from_first_max:
  assumes "i = length pre" and "best_i < length pre" and "pre ! best_i = best_v"
    and "\<forall>j < length pre. pre ! j \<le> best_v" and "\<forall>j < best_i. pre ! j < best_v"
  shows "argmax_from best_i best_v i xs < length (pre @ xs)
    \<and> (\<forall>j < length (pre @ xs). (pre @ xs) ! j \<le> (pre @ xs) ! argmax_from best_i best_v i xs)
    \<and> (\<forall>j < argmax_from best_i best_v i xs.
          (pre @ xs) ! j < (pre @ xs) ! argmax_from best_i best_v i xs)"
  using assms
proof (induction xs arbitrary: pre best_i best_v i)
  case Nil
  then show ?case by simp
next
  case (Cons x xs)
  show ?case
  proof (cases "best_v < x")
    case True
    have "argmax_from i x (Suc i) xs < length ((pre @ [x]) @ xs)
      \<and> (\<forall>j < length ((pre @ [x]) @ xs).
            ((pre @ [x]) @ xs) ! j \<le> ((pre @ [x]) @ xs) ! argmax_from i x (Suc i) xs)
      \<and> (\<forall>j < argmax_from i x (Suc i) xs.
            ((pre @ [x]) @ xs) ! j < ((pre @ [x]) @ xs) ! argmax_from i x (Suc i) xs)"
    proof (rule Cons.IH)
      show "Suc i = length (pre @ [x])" using Cons.prems(1) by simp
      show "i < length (pre @ [x])" using Cons.prems(1) by simp
      show "(pre @ [x]) ! i = x" using Cons.prems(1) by simp
      show "\<forall>j < length (pre @ [x]). (pre @ [x]) ! j \<le> x"
        using Cons.prems(4) True by (auto simp add: nth_append less_Suc_eq dest: order_trans)
      show "\<forall>j < i. (pre @ [x]) ! j < x"
        using Cons.prems(1,4) True by (auto simp add: nth_append)
    qed
    with True show ?thesis by simp
  next
    case False
    have "argmax_from best_i best_v (Suc i) xs < length ((pre @ [x]) @ xs)
      \<and> (\<forall>j < length ((pre @ [x]) @ xs).
            ((pre @ [x]) @ xs) ! j \<le> ((pre @ [x]) @ xs) ! argmax_from best_i best_v (Suc i) xs)
      \<and> (\<forall>j < argmax_from best_i best_v (Suc i) xs.
            ((pre @ [x]) @ xs) ! j < ((pre @ [x]) @ xs) ! argmax_from best_i best_v (Suc i) xs)"
    proof (rule Cons.IH)
      show "Suc i = length (pre @ [x])" using Cons.prems(1) by simp
      show "best_i < length (pre @ [x])" using Cons.prems(2) by simp
      show "(pre @ [x]) ! best_i = best_v" using Cons.prems(2,3) by (simp add: nth_append)
      show "\<forall>j < length (pre @ [x]). (pre @ [x]) ! j \<le> best_v"
        using Cons.prems(4) False by (auto simp add: nth_append less_Suc_eq)
      show "\<forall>j < best_i. (pre @ [x]) ! j < best_v"
        using Cons.prems(2,5) by (auto simp add: nth_append)
    qed
    with False show ?thesis by simp
  qed
qed

lemma idxmax_empty: "idxmax [] = Inl ValueError"
  by (simp add: idxmax_def)

lemma idxmax_first_max:
  assumes "xs \<noteq> []"
  obtains i where "idxmax xs = Inr i" and "i < length xs"
    and "\<forall>j < length xs. xs ! j \<le> xs ! i" and "\<forall>j < i. xs ! j < xs ! i"
proof -
  from assms obtain x xs' where xs: "xs = x # xs'" by (cases xs) auto
  have "argmax_from 0 x 1 xs' < length ([x] @ xs')
    \<and> (\<forall>j < length ([x] @ xs'). ([x] @ xs') ! j \<le> ([x] @ xs') ! argmax_from 0 x 1 xs')
    \<and> (\<forall>j < argmax_from 0 x 1 xs'. ([x] @ xs') ! j < ([x] @ xs') ! argmax_from 0 x 1 xs')"
    by (rule argmax_from_first_max) simp_all
  then show thesis using that [of "argmax_from 0 x 1 xs'"] xs
    by (simp add: idxmax_def)
qed

lemma cst_point_first_max:
  assumes "data \<noteq> []"
  obtains i where "i < length (sorted_table data)"
    and "cst_point data =
           Inr (mean_c (sorted_table data ! i), pct_phenol (sorted_table data ! i))"
    and "\<forall>j < length (sorted_table data).
           mean_c (sorted_table data ! j) \<le> mean_c (sorted_table data ! i)"
    and "\<forall>j < i. mean_c (sorted_table data ! j) < mean_c (sorted_table data ! i)"
proof -
  let ?df = "sorted_table data"
  from assms have "set ?df \<noteq> {}" by (simp add: sorted_table_props)
  then have ne: "map mean_c ?df \<noteq> []" by simp
  from ne obtain i where i: "idxmax (map mean_c ?df) = Inr i" "i < length (map mean_c ?df)"
    "\<forall>j < length (map mean_c ?df). map mean_c ?df ! j \<le> map mean_c ?df ! i"
    "\<forall>j < i. map mean_c ?df ! j < map mean_c ?df ! i"
    by (rule idxmax_first_max)
  from i(2) have len: "i < length ?df" by simp
  have "cst_point data = Inr (mean_c (?df ! i), pct_phenol (?df ! i))"
    using i(1) by (simp add: cst_point_def Let_def)
  moreover have "\<forall>j < length ?df. mean_c (?df ! j) \<le> mean_c (?df ! i)"
    using i(3) len by simp
  moreover have "\<forall>j < i. mean_c (?df ! j) < mean_c (?df ! i)"
    using i(4) len by simp
  ultimately show thesis using len that by blast
qed

text \<open>
  C3: the plot state works on the de-duplicated phenol table sorted ascending by
  \<open>percentPhenol\<close>, which has the rows of the table, each once; of a non-empty table it
  takes the first row, in that order, whose \<open>meanTemp\<close> is the greatest, and \<open>cst_temp\<close>
  and \<open>cst_conc\<close> are that row's \<open>meanTemp\<close> and \<open>percentPhenol\<close>; an empty table
  raises. For a table whose \<open>meanTemp\<close> values are \<open>[60.0, 64.1875, 61.0]\<close> the result is
  \<open>64.1875\<close> with the \<open>percentPhenol\<close> of the second row.
\<close>

theorem cst_extraction:
  "sorted (map pct_phenol (sorted_table data))
   \<and> distinct (sorted_table data)
   \<and> set (sorted_table data) = set data
   \<and> (data = [] \<longrightarrow> cst_point data = Inl ValueError)
   \<and> (data \<noteq> [] \<longrightarrow>
        (\<exists>i < length (sorted_table data).
           cst_point data =
             Inr (mean_c (sorted_table data ! i), pct_phenol (sorted_table data ! i))
           \<and> (\<forall>j < length (sorted_table data).
                 mean_c (sorted_table data ! j) \<le> mean_c (sorted_table data ! i))
           \<and> (\<forall>j < i. mean_c (sorted_table data ! j) < mean_c (sorted_table data ! i))))
   \<and> (map mean_c data = [60.0, 64.1875, 61.0] \<longrightarrow>
        cst_point data = Inr (64.1875, pct_phenol (data ! 1)))"
proof (intro conjI impI)
  show "sorted (map pct_phenol (sorted_table data))" by (rule sorted_table_props)
  show "distinct (sorted_table data)" by (rule sorted_table_props)
  show "set (sorted_table data) = set data" by (rule sorted_table_props)
  show "cst_point data = Inl ValueError" if "data = []"
    using that by (simp add: cst_point_def sorted_table_def idxmax_def)
  show "\<exists>i < length (sorted_table data).
           cst_point data =
             Inr (mean_c (sorted_table data ! i), pct_phenol (sorted_table data ! i))
           \<and> (\<forall>j < length (sorted_table data).
                 mean_c (sorted_table data ! j) \<le> mean_c (sorted_table data ! i))
           \<and> (\<forall>j < i. mean_c (sorted_table data ! j) < mean_c (sorted_table data ! i))"
    if "data \<noteq> []"
    using that by (rule cst_point_first_max) blast
  show "cst_point data = Inr (64.1875, pct_phenol (data ! 1))"
    if means: "map mean_c data = [60.0, 64.1875, 61.0]"
  proof -
    from means obtain a b c where data: "data = [a, b, c]"
      and m: "mean_c a = 60.0" "mean_c b = 64.1875" "mean_c c = 61.0"
      by (auto simp add: map_eq_Cons_conv)
    let ?df = "sorted_table data"
    from data have "data \<noteq> []" by simp
    then obtain i where i: "i < length ?df"
      "cst_point data = Inr (mean_c (?df ! i), pct_phenol (?df ! i))"
      "\<forall>j < length ?df. mean_c (?df ! j) \<le> mean_c (?df ! i)"
      by (rule cst_point_first_max)
    have "b \<in> set ?df" using data by (simp add: sorted_table_props)
    then obtain k where "k < length ?df" "?df ! k = b" by (auto simp add: in_set_conv_nth)
    with i(3) have ge: "mean_c b \<le> mean_c (?df ! i)" by auto
    from i(1) have "?df ! i \<in> set ?df" by simp
    then have "?df ! i \<in> {a, b, c}" using data by (simp add: sorted_table_props)
    with ge m have "?df ! i = b" by auto
    with i(2) m data show ?thesis by simp
  qed
qed

theorem cst_extraction_witness:
  "map mean_c
     [\<lparr>phenol_ml = 5.0, water_ml = 1.25, pct_phenol = 80.0,
        disappear_c = 63.0, reappear_c = 57.0, mean_c = 60.0\<rparr>,
      \<lparr>phenol_ml = 5.0, water_ml = 3.0, pct_phenol = 62.5,
        disappear_c = 66.75, reappear_c = 61.625, mean_c = 64.1875\<rparr>,
      \<lparr>phenol_ml = 10.0, water_ml = 3.0, pct_phenol = 76.0,
        disappear_c = 64.0, reappear_c = 58.0, mean_c = 61.0\<rparr>] = [60.0, 64.1875, 61.0]
   \<and> cst_point
     [\<lparr>phenol_ml = 5.0, water_ml = 1.25, pct_phenol = 80.0,
        disappear_c = 63.0, reappear_c = 57.0, mean_c = 60.0\<rparr>,
      \<lparr>phenol_ml = 5.0, water_ml = 3.0, pct_phenol = 62.5,
        disappear_c = 66.75, reappear_c = 61.625, mean_c = 64.1875\<rparr>,
      \<lparr>phenol_ml = 10.0, water_ml = 3.0, pct_phenol = 76.0,
        disappear_c = 64.0, reappear_c = 58.0, mean_c = 61.0\<rparr>] = Inr (64.1875, 62.5)"
  using cst_extraction
    [of "[\<lparr>phenol_ml = 5.0, water_ml = 1.25, pct_phenol = 80.0,
        disappear_c = 63.0, reappear_c = 57.0, mean_c = 60.0\<rparr>,
      \<lparr>phenol_ml = 5.0, water_ml = 3.0, pct_phenol = 62.5,
        disappear_c = 66.75, reappear_c = 61.625, mean_c = 64.1875\<rparr>,
      \<lparr>phenol_ml = 10.0, water_ml = 3.0, pct_phenol = 76.0,
        disappear_c = 64.0, reappear_c = 58.0, mean_c = 61.0\<rparr>]"]
  by simp

end
